theory Spec2Isabelle
  imports Complex_Main "HOL-Library.Char_ord" "HOL-Library.List_Lexorder" "HOL-Library.Multiset"
begin

section \<open>Trainer feedback analysis and outreach generation\<close>

text \<open>
  A shallow embedding of \<^verbatim>\<open>scripts/analyze_trainer_feedback.py\<close> and
  \<^verbatim>\<open>scripts/generate_outreach.py\<close>.

  Conventions of the model:
  \<^item> a Python \<^verbatim>\<open>str\<close> is a \<open>string\<close>; a character is a code point below 256, and the
    library operations on characters (\<^verbatim>\<open>strip\<close>, \<^verbatim>\<open>lower\<close>) act on that range as Python
    does;
  \<^item> a float is an exact rational; \<^verbatim>\<open>NaN\<close>, \<^verbatim>\<open>NaT\<close> and a missing cell are \<open>None\<close>;
  \<^item> a data frame is the list of its rows in row order, with the list of its column
    names beside it where the code asks for it;
  \<^item> \<^verbatim>\<open>DataFrame.sort_values\<close> is called with its default \<^verbatim>\<open>kind\<close>; the function it
    computes is an argument \<open>srt\<close> of the model;
  \<^item> \<^verbatim>\<open>list.sort(key=..., reverse=True)\<close> is Python's stable sort; it is the stable
    insertion sort \<open>sort_key\<close> on the negated key;
  \<^item> printing and the writing of the output files are left out: \<open>main\<close> returns the
    list \<^verbatim>\<open>results\<close>.
\<close>

subsection \<open>Strings\<close>

text \<open>Python's \<^verbatim>\<open>str.isspace\<close> on one character below 256.\<close>

definition isspace :: "char \<Rightarrow> bool" where
  "isspace c =
     (let n = (of_char c :: nat)
      in (9 \<le> n \<and> n \<le> 13) \<or> (28 \<le> n \<and> n \<le> 32) \<or> n = 133 \<or> n = 160)"

text \<open>\<^verbatim>\<open>text.strip()\<close>: leading and trailing whitespace removed.\<close>

definition strip :: "string \<Rightarrow> string" where
  "strip s = rev (dropWhile isspace (rev (dropWhile isspace s)))"

text \<open>\<^verbatim>\<open>str.lower\<close> on one character below 256.\<close>

definition lower_char :: "char \<Rightarrow> char" where
  "lower_char c =
     (let n = (of_char c :: nat)
      in if (65 \<le> n \<and> n \<le> 90) \<or> (192 \<le> n \<and> n \<le> 222 \<and> n \<noteq> 215)
         then char_of (n + 32) else c)"

definition lower :: "string \<Rightarrow> string" where
  "lower s = map lower_char s"

text \<open>
  \<^verbatim>\<open>str.upper\<close> on one character below 256, used by \<^verbatim>\<open>capitalize\<close>. The three
  characters of that range whose upper case lies outside it (code points 181, 223 and
  255) are left as they are.
\<close>

definition upper_char :: "char \<Rightarrow> char" where
  "upper_char c =
     (let n = (of_char c :: nat)
      in if (97 \<le> n \<and> n \<le> 122) \<or> (224 \<le> n \<and> n \<le> 254 \<and> n \<noteq> 247)
         then char_of (n - 32) else c)"

fun capitalize :: "string \<Rightarrow> string" where
  "capitalize [] = []"
| "capitalize (c # cs) = upper_char c # lower cs"

text \<open>\<^verbatim>\<open>s.startswith(p)\<close>.\<close>

fun startswith :: "string \<Rightarrow> string \<Rightarrow> bool" where
  "startswith s [] = True"
| "startswith [] (p # ps) = False"
| "startswith (c # cs) (p # ps) = (c = p \<and> startswith cs ps)"

text \<open>\<^verbatim>\<open>p in s\<close> on strings: \<open>p\<close> occurs in \<open>s\<close> as a contiguous substring.\<close>

fun str_in :: "string \<Rightarrow> string \<Rightarrow> bool" where
  "str_in p [] = (p = [])"
| "str_in p (c # cs) = (startswith (c # cs) p \<or> str_in p cs)"

text \<open>\<^verbatim>\<open>s.split(sep)[0]\<close> for a separator of one character.\<close>

definition split_first :: "char \<Rightarrow> string \<Rightarrow> string" where
  "split_first sep s = takeWhile (\<lambda>c. c \<noteq> sep) s"

subsection \<open>Rows of the feedback table\<close>

text \<open>
  One row of the data frame after the score columns have been cleaned:
  \<open>row_id\<close> is the number \<open>i\<close> of the token \<^verbatim>\<open>f"R{i:04d}"\<close>, \<open>Trainer\<close> and
  \<open>creation_datetime\<close> are absent when the cell is \<^verbatim>\<open>NaN\<close> or \<^verbatim>\<open>NaT\<close>,
  \<open>score_values\<close> holds the cells of \<^verbatim>\<open>actual_score_cols\<close> in order, and
  \<open>text_fields\<close> gives the cell of each other column by name.
\<close>

record feedback_row =
  row_id :: nat
  Trainer :: "string option"
  creation_datetime :: "int option"
  score_values :: "rat option list"
  text_fields :: "string \<Rightarrow> string option"

text \<open>\<^verbatim>\<open>Series.dropna()\<close>.\<close>

definition dropna :: "'a option list \<Rightarrow> 'a list" where
  "dropna xs = List.map_filter (\<lambda>x. x) xs"

text \<open>
  \<^verbatim>\<open>mean(axis=1, skipna=True)\<close> on one row: the sum of the cells with every absent
  cell counted as zero, divided by the number of present cells; \<^verbatim>\<open>NaN\<close> when that
  number is zero.
\<close>

definition nanmean :: "rat option list \<Rightarrow> rat option" where
  "nanmean vs =
     (let the_sum = sum_list (map (\<lambda>v. case v of None \<Rightarrow> 0 | Some x \<Rightarrow> x) vs);
          count = length (filter (\<lambda>v. v \<noteq> None) vs)
      in if count = 0 then None else Some (the_sum / of_nat count))"

definition composite_score :: "feedback_row \<Rightarrow> rat option" where
  "composite_score r = nanmean (score_values r)"

text \<open>\<^verbatim>\<open>Series.mean()\<close> of a series without absent values; called on non-empty series only.\<close>

definition mean :: "rat list \<Rightarrow> rat" where
  "mean xs = sum_list xs / of_nat (length xs)"

subsection \<open>Cohorts and the improvement of a trainer\<close>

text \<open>\<^verbatim>\<open>df[df['Trainer'].notna() & df['creation_datetime'].notna()]\<close>.\<close>

definition valid_rows :: "feedback_row list \<Rightarrow> feedback_row list" where
  "valid_rows df = filter (\<lambda>r. Trainer r \<noteq> None \<and> creation_datetime r \<noteq> None) df"

text \<open>
  \<^verbatim>\<open>df.groupby('Trainer')\<close>: one group for each trainer, the trainers in ascending
  order, each group holding that trainer's rows in row order.
\<close>

definition groupby_Trainer :: "feedback_row list \<Rightarrow> (string \<times> feedback_row list) list" where
  "groupby_Trainer df =
     map (\<lambda>t. (t, filter (\<lambda>r. Trainer r = Some t) df))
         (sort (remdups (List.map_filter Trainer df)))"

definition early_half :: "'a list \<Rightarrow> 'a list" where
  "early_half grp = (let mid_point = length grp div 2 in take mid_point grp)"

definition late_half :: "'a list \<Rightarrow> 'a list" where
  "late_half grp = (let mid_point = length grp div 2 in drop mid_point grp)"

record trainer_stat =
  trainer :: string
  n_responses :: nat
  mean_early :: rat
  mean_late :: rat
  improvement :: rat
  group_df :: "feedback_row list"

text \<open>
  One pass of the loop over the groups: \<open>None\<close> when nothing is appended to
  \<^verbatim>\<open>trainer_stats\<close>.
\<close>

definition group_stats ::
  "(feedback_row list \<Rightarrow> feedback_row list) \<Rightarrow> string \<Rightarrow> feedback_row list \<Rightarrow> trainer_stat option"
where
  "group_stats srt t grp =
     (let n = length grp
      in if n < 3 then None
         else
           let sorted_group = srt grp;
               early_scores = dropna (map composite_score (early_half sorted_group));
               late_scores = dropna (map composite_score (late_half sorted_group))
           in if length early_scores > 0 \<and> length late_scores > 0
              then Some \<lparr> trainer = t, n_responses = n,
                          mean_early = mean early_scores, mean_late = mean late_scores,
                          improvement = mean late_scores - mean early_scores,
                          group_df = sorted_group \<rparr>
              else None)"

definition compute_trainer_stats ::
  "(feedback_row list \<Rightarrow> feedback_row list) \<Rightarrow> feedback_row list \<Rightarrow> trainer_stat list"
where
  "compute_trainer_stats srt df =
     List.map_filter (\<lambda>(t, grp). group_stats srt t grp) (groupby_Trainer df)"

text \<open>\<^verbatim>\<open>trainer_stats.sort(key=lambda x: x['improvement'], reverse=True)\<close>.\<close>

definition sort_by_improvement :: "trainer_stat list \<Rightarrow> trainer_stat list" where
  "sort_by_improvement stats = sort_key (\<lambda>x. - improvement x) stats"

definition top_2 :: "trainer_stat list \<Rightarrow> trainer_stat list" where
  "top_2 stats = take 2 (sort_by_improvement stats)"

subsection \<open>The case study angle\<close>

definition case_study :: "rat \<Rightarrow> string" where
  "case_study imp =
     (if imp > 1 then ''Demonstrated exceptional growth in participant satisfaction scores''
      else if imp > 1 / 2 then ''Showed strong improvement in training effectiveness and learner engagement''
      else if imp > 0 then ''Steady upward trajectory in teaching quality and participant feedback''
      else ''Maintained consistently high training standards with positive learner outcomes'')"

text \<open>
  \<^verbatim>\<open>sort_values('creation_datetime')\<close> as it is computed when the sort is stable (as with
  \<^verbatim>\<open>kind='stable'\<close>), on rows that have a timestamp, as all rows of a group have: one of
  the functions that can stand for \<open>srt\<close>, used to run the model on concrete frames.
\<close>

definition sort_values_stable :: "feedback_row list \<Rightarrow> feedback_row list" where
  "sort_values_stable grp =
     sort_key (\<lambda>r. case creation_datetime r of None \<Rightarrow> 0 | Some d \<Rightarrow> d) grp"

subsection \<open>Positive quotes\<close>

record extracted_quote =
  eq_row_id :: nat
  quote :: string
  source_column :: string

definition positive_keywords :: "string list" where
  "positive_keywords =
     [''excellent'', ''great'', ''love'', ''helpful'', ''enjoyed'',
      ''beneficial'', ''best'', ''appreciated'', ''wonderful'',
      ''positive'', ''fun'', ''engaging'', ''motivated'', ''patient'',
      ''clear'', ''friendly'', ''approachable'', ''flexible'']"

text \<open>\<^verbatim>\<open>any(keyword in text_lower for keyword in positive_keywords)\<close>.\<close>

definition has_positive :: "string \<Rightarrow> bool" where
  "has_positive text_lower = list_ex (\<lambda>keyword. str_in keyword text_lower) positive_keywords"

text \<open>
  The body of the inner loop of \<^verbatim>\<open>extract_positive_quotes\<close> for one cell: the text
  of the quote that is appended, \<open>None\<close> when the loop continues without appending.
\<close>

definition quote_text :: "string option \<Rightarrow> string option" where
  "quote_text cell =
     (case cell of
        None \<Rightarrow> None
      | Some t \<Rightarrow>
          if t = [] \<or> t = ''nan'' \<or> t = ''-'' then None
          else
            let text_str = strip t
            in if length text_str < 20 then None
               else if has_positive (lower text_str)
                    then Some (if length text_str > 200 then take 200 text_str @ ''...''
                               else text_str)
                    else None)"

definition row_quote :: "string \<Rightarrow> feedback_row \<Rightarrow> extracted_quote option" where
  "row_quote col r =
     (case quote_text (text_fields r col) of
        None \<Rightarrow> None
      | Some q \<Rightarrow> Some \<lparr> eq_row_id = row_id r, quote = q, source_column = col \<rparr>)"

text \<open>The first argument is \<^verbatim>\<open>df.columns\<close>, the second the rows of \<^verbatim>\<open>df\<close>.\<close>

definition extract_positive_quotes ::
  "string list \<Rightarrow> feedback_row list \<Rightarrow> string list \<Rightarrow> extracted_quote list"
where
  "extract_positive_quotes columns df text_cols =
     concat (map (\<lambda>col. if col \<in> set columns then List.map_filter (row_quote col) df else [])
                 text_cols)"

text \<open>
  \<^verbatim>\<open>all_quotes.sort(key=lambda q: len(q['quote']), reverse=True)\<close> and
  \<^verbatim>\<open>all_quotes[:2]\<close>.
\<close>

definition select_quotes :: "extracted_quote list \<Rightarrow> extracted_quote list" where
  "select_quotes all_quotes = take 2 (sort_key (\<lambda>q. - int (length (quote q))) all_quotes)"

subsection \<open>Results\<close>

text \<open>
  \<^verbatim>\<open>round(x, ndigits)\<close> on an exact value: the nearest multiple of \<open>10\<close> to the power
  \<open>- ndigits\<close>, a tie going to the even one.
\<close>

definition round_half_even :: "rat \<Rightarrow> int" where
  "round_half_even x =
     (let f = \<lfloor>x\<rfloor>; d = x - of_int f
      in if d < 1 / 2 then f else if d > 1 / 2 then f + 1 else if even f then f else f + 1)"

definition round_ndigits :: "rat \<Rightarrow> nat \<Rightarrow> rat" where
  "round_ndigits x ndigits = of_int (round_half_even (x * 10 ^ ndigits)) / 10 ^ ndigits"

record result_quote =
  rq_row_id :: nat
  rq_quote :: string
  source :: string

record result =
  rank :: nat
  trainer_name :: string
  res_n_responses :: nat
  improvement_score :: rat
  mean_early_score :: rat
  mean_late_score :: rat
  quotes :: "result_quote list"
  case_study_angle :: string

text \<open>One pass of the loop over \<^verbatim>\<open>enumerate(top_2, 1)\<close>.\<close>

definition build_result :: "string list \<Rightarrow> string list \<Rightarrow> nat \<Rightarrow> trainer_stat \<Rightarrow> result" where
  "build_result columns text_cols idx trainer_data =
     (let all_quotes = extract_positive_quotes columns (group_df trainer_data) text_cols;
          selected_quotes = select_quotes all_quotes
      in \<lparr> rank = idx,
           trainer_name = trainer trainer_data,
           res_n_responses = n_responses trainer_data,
           improvement_score = round_ndigits (improvement trainer_data) 3,
           mean_early_score = round_ndigits (mean_early trainer_data) 2,
           mean_late_score = round_ndigits (mean_late trainer_data) 2,
           quotes = map (\<lambda>q. \<lparr> rq_row_id = eq_row_id q, rq_quote = quote q,
                                 source = source_column q \<rparr>) selected_quotes,
           case_study_angle = case_study (improvement trainer_data) \<rparr>)"

text \<open>
  \<^verbatim>\<open>main\<close> of the analysis, from the loaded frame (its column names and its rows, the
  score columns cleaned) to the list \<^verbatim>\<open>results\<close>.
\<close>

definition main ::
  "(feedback_row list \<Rightarrow> feedback_row list) \<Rightarrow> string list \<Rightarrow> feedback_row list \<Rightarrow> result list"
where
  "main srt columns rows =
     (let df = valid_rows rows;
          trainer_stats = compute_trainer_stats srt df;
          top = top_2 trainer_stats;
          text_cols = filter (\<lambda>col. str_in ''3.12'' col \<or> str_in ''3.13'' col) columns
      in map (\<lambda>(idx, trainer_data). build_result columns text_cols idx trainer_data)
             (enumerate 1 top))"

subsection \<open>Outreach\<close>

datatype py_error = IndexError

text \<open>\<^verbatim>\<open>xs[0]\<close> on a list.\<close>

definition index0 :: "'a list \<Rightarrow> py_error + 'a" where
  "index0 xs = (case xs of [] \<Rightarrow> Inl IndexError | x # _ \<Rightarrow> Inr x)"

definition extract_first_name :: "string \<Rightarrow> string" where
  "extract_first_name email =
     (let username = split_first CHR ''@'' email;
          first_part = split_first CHR ''_'' (split_first CHR ''.'' username)
      in capitalize first_part)"

record outreach =
  out_trainer_name :: string
  trainer_email :: string
  email_subject :: string
  email_body :: string
  evidence_quote :: string
  evidence_row_id :: nat
  generated_at :: string

definition subject_line :: "string \<Rightarrow> string" where
  "subject_line first_name =
     ''Your training impact is showing up in the feedback, '' @ first_name @ ''!''"

text \<open>
  The template of the body. The dash of its last paragraph but two, a code point above
  255 in the source, is written as a hyphen.
\<close>

definition body_text :: "string \<Rightarrow> string \<Rightarrow> string" where
  "body_text first_name quote_str =
     ''Hi '' @ first_name @ '',\<newline>\<newline>'' @
     ''I wanted to reach out personally because I've been reviewing our trainer feedback data and your name kept coming up in a really positive way.\<newline>\<newline>'' @
     ''Over the past few months, we've seen strong improvement in your training scores and the feedback from learners has been genuinely impressive. Here's one that really stood out to me:\<newline>\<newline>'' @
     [CHR 0x22] @ quote_str @ [CHR 0x22] @ ''\<newline>\<newline>'' @
     ''That kind of feedback tells us you're doing something right, and we'd love to capture and share what's working for you.\<newline>\<newline>'' @
     ''Would you be up for helping us with two quick things?\<newline>\<newline>'' @
     ''1. A short testimonial quote from you (just a sentence or two about your experience as a trainer with us)\<newline>'' @
     ''2. Either a 15-20 min chat or a quick written Q&A where we can learn more about your approach to training\<newline>\<newline>'' @
     ''We're building out some case studies and best practices to help other trainers, and your insights would be really valuable.\<newline>\<newline>'' @
     ''Just reply to this email and let me know if you're interested. No pressure if you're swamped - I totally get it.\<newline>\<newline>'' @
     ''Thanks for being such a great part of the team!\<newline>\<newline>'' @
     ''Best,\<newline>'' @
     ''[Your name]''"

text \<open>
  \<^verbatim>\<open>generate_email\<close>. The first argument is the value of
  \<^verbatim>\<open>datetime.now().isoformat()\<close> at the call. The two reads of
  \<^verbatim>\<open>trainer_data['quotes'][0]\<close> raise \<^verbatim>\<open>IndexError\<close> on an empty list.
\<close>

definition generate_email :: "string \<Rightarrow> result \<Rightarrow> py_error + outreach" where
  "generate_email now trainer_data =
     (let first_name = extract_first_name (trainer_name trainer_data);
          email = trainer_name trainer_data
      in case index0 (quotes trainer_data) of
           Inl e \<Rightarrow> Inl e
         | Inr q0 \<Rightarrow>
             (case index0 (quotes trainer_data) of
                Inl e \<Rightarrow> Inl e
              | Inr q1 \<Rightarrow>
                  Inr \<lparr> out_trainer_name = first_name,
                        trainer_email = email,
                        email_subject = subject_line first_name,
                        email_body = body_text first_name (rq_quote q0),
                        evidence_quote = rq_quote q0,
                        evidence_row_id = rq_row_id q1,
                        generated_at = now \<rparr>))"

text \<open>
  The loop of \<^verbatim>\<open>main\<close> of the outreach script over the loaded results: the first
  exception ends the run.
\<close>

fun generate_all :: "string \<Rightarrow> result list \<Rightarrow> py_error + outreach list" where
  "generate_all now [] = Inr []"
| "generate_all now (t # ts) =
     (case generate_email now t of
        Inl e \<Rightarrow> Inl e
      | Inr email_data \<Rightarrow>
          (case generate_all now ts of
             Inl e \<Rightarrow> Inl e
           | Inr outreach_emails \<Rightarrow> Inr (email_data # outreach_emails)))"

subsection \<open>Sample frames\<close>

text \<open>Concrete frames and texts on which the model is run.\<close>

definition no_text :: "string \<Rightarrow> string option" where
  "no_text col = None"

definition liked_texts :: "string \<Rightarrow> string option" where
  "liked_texts col =
     (if col = ''3.12 Liked'' then Some ''The sessions were great and well paced''
      else if col = ''3.13 Other'' then Some ''Very helpful trainer, thank you''
      else None)"

definition mk_row ::
  "nat \<Rightarrow> string \<Rightarrow> int option \<Rightarrow> rat option list \<Rightarrow> (string \<Rightarrow> string option) \<Rightarrow> feedback_row"
where
  "mk_row i t d vs tf =
     \<lparr> row_id = i, Trainer = Some t, creation_datetime = d, score_values = vs, text_fields = tf \<rparr>"

definition sample_columns :: "string list" where
  "sample_columns =
     [''Trainer'', ''Creation Date'', ''1.3 Rating'', ''1.4 Pace'', ''3.12 Liked'', ''3.13 Other'']"

text \<open>
  Four trainers: one with four rows whose composite scores are 2, 3, 4, 5 in time order
  and whose first row has a qualifying text in both text columns; one with three rows,
  the middle one without any score, and no text; one with two valid rows and a third
  without timestamp; one with three rows whose earliest has no score.
\<close>

definition sample_rows :: "feedback_row list" where
  "sample_rows =
     [mk_row 1 ''bea@x.org'' (Some 10) [Some 4, None] no_text,
      mk_row 2 ''al.fa@x.org'' (Some 20) [Some 2, Some 2] liked_texts,
      mk_row 3 ''bea@x.org'' (Some 30) [None, None] no_text,
      mk_row 4 ''al.fa@x.org'' (Some 40) [Some 3, None] no_text,
      mk_row 5 ''cy@x.org'' (Some 50) [Some 5, Some 5] no_text,
      mk_row 6 ''bea@x.org'' (Some 60) [Some 3, Some 3] no_text,
      mk_row 7 ''al.fa@x.org'' (Some 70) [Some 4, Some 4] no_text,
      mk_row 8 ''cy@x.org'' (Some 80) [Some 1, Some 1] no_text,
      mk_row 9 ''al.fa@x.org'' (Some 90) [None, Some 5] no_text,
      mk_row 10 ''cy@x.org'' None [Some 1, Some 1] no_text,
      mk_row 11 ''dee@x.org'' (Some 110) [None, None] no_text,
      mk_row 12 ''dee@x.org'' (Some 120) [Some 1, Some 1] no_text,
      mk_row 13 ''dee@x.org'' (Some 130) [Some 5, Some 5] no_text]"

definition sample_results :: "result list" where
  "sample_results =
     [\<lparr> rank = 1, trainer_name = ''al.fa@x.org'', res_n_responses = 4, improvement_score = 2,
         mean_early_score = 5 / 2, mean_late_score = 9 / 2,
         quotes = [\<lparr> rq_row_id = 2, rq_quote = ''The sessions were great and well paced'',
                      source = ''3.12 Liked'' \<rparr>,
                   \<lparr> rq_row_id = 2, rq_quote = ''Very helpful trainer, thank you'',
                      source = ''3.13 Other'' \<rparr>],
         case_study_angle = ''Demonstrated exceptional growth in participant satisfaction scores'' \<rparr>,
      \<lparr> rank = 2, trainer_name = ''bea@x.org'', res_n_responses = 3, improvement_score = - 1,
         mean_early_score = 4, mean_late_score = 3,
         quotes = [],
         case_study_angle = ''Maintained consistently high training standards with positive learner outcomes'' \<rparr>]"

definition text_201 :: string where
  "text_201 = ''great '' @ replicate 195 (CHR ''x'')"

definition text_200 :: string where
  "text_200 = ''great '' @ replicate 194 (CHR ''x'')"

text \<open>A trainer whose improvement, 1.0004, rounds to 1 at three decimals.\<close>

definition near_one :: trainer_stat where
  "near_one = \<lparr> trainer = ''al.fa@x.org'', n_responses = 3, mean_early = 3,
                mean_late = 10001 / 2500, improvement = 2501 / 2500, group_df = [] \<rparr>"

text \<open>A qualifying text with an upper-case keyword and blanks around it.\<close>

definition padded_upper_text :: string where
  "padded_upper_text = ''  The trainer was EXCELLENT today  ''"

section \<open>Properties\<close>

subsection \<open>Auxiliary facts\<close>

lemma nanmean_eq:
  "nanmean vs = (if dropna vs = [] then None else Some (sum_list (dropna vs) / of_nat (length (dropna vs))))"
proof -
  have s: "sum_list (map (\<lambda>v. case v of None \<Rightarrow> 0 | Some x \<Rightarrow> x) vs) = sum_list (dropna vs)" for vs :: "rat option list"
    by (induction vs) (auto simp: dropna_def split: option.splits)
  have l: "length (filter (\<lambda>v. v \<noteq> None) vs) = length (dropna vs)" for vs :: "rat option list"
    by (induction vs) (auto simp: dropna_def split: option.splits)
  show ?thesis by (simp only: nanmean_def Let_def s l) simp
qed

lemma dropna_Nil_iff: "dropna vs = [] \<longleftrightarrow> (\<forall>v\<in>set vs. v = None)"
  by (induction vs) (auto simp: dropna_def split: option.splits)

lemma dropna_map_filter:
  "dropna (map f xs) = map (\<lambda>x. the (f x)) (filter (\<lambda>x. f x \<noteq> None) xs)"
  by (induction xs) (auto simp: dropna_def split: option.splits)

lemma group_stats_SomeD:
  assumes "group_stats srt t grp = Some s"
  shows "3 \<le> length grp"
    and "dropna (map composite_score (early_half (srt grp))) \<noteq> []"
    and "dropna (map composite_score (late_half (srt grp))) \<noteq> []"
    and "trainer s = t"
    and "n_responses s = length grp"
    and "mean_early s = mean (dropna (map composite_score (early_half (srt grp))))"
    and "mean_late s = mean (dropna (map composite_score (late_half (srt grp))))"
    and "improvement s = mean_late s - mean_early s"
    and "group_df s = srt grp"
  using assms by (auto simp: group_stats_def Let_def split: if_splits)

lemma set_map_filter: "set (List.map_filter f xs) = {y. \<exists>x\<in>set xs. f x = Some y}"
  by (induction xs) (auto split: option.splits)

lemma groupby_Trainer_elem:
  "(t, grp) \<in> set (groupby_Trainer df) \<Longrightarrow> grp = filter (\<lambda>r. Trainer r = Some t) df"
  by (auto simp: groupby_Trainer_def)

lemma compute_trainer_stats_elem:
  assumes "s \<in> set (compute_trainer_stats srt df)"
  shows "group_stats srt (trainer s) (filter (\<lambda>r. Trainer r = Some (trainer s)) df) = Some s"
proof -
  from assms obtain t grp where m: "(t, grp) \<in> set (groupby_Trainer df)"
    and g: "group_stats srt t grp = Some s"
    by (auto simp: compute_trainer_stats_def set_map_filter)
  have "trainer s = t" using g by (rule group_stats_SomeD(4))
  with g groupby_Trainer_elem [OF m] show ?thesis by simp
qed

lemma set_top_2: "set (top_2 stats) \<subseteq> set stats"
  using set_take_subset [of 2 "sort_by_improvement stats"]
  by (simp add: top_2_def sort_by_improvement_def)

lemma trainer_name_build_result [simp]:
  "trainer_name (build_result columns text_cols idx td) = trainer td"
  by (simp add: build_result_def Let_def)

lemma rank_build_result [simp]: "rank (build_result columns text_cols idx td) = idx"
  by (simp add: build_result_def Let_def)

lemma improvement_score_build_result [simp]:
  "improvement_score (build_result columns text_cols idx td) = round_ndigits (improvement td) 3"
  by (simp add: build_result_def Let_def)

lemma case_study_angle_build_result [simp]:
  "case_study_angle (build_result columns text_cols idx td) = case_study (improvement td)"
  by (simp add: build_result_def Let_def)

lemma map_trainer_name_main:
  "map trainer_name (main srt columns rows)
     = map trainer (top_2 (compute_trainer_stats srt (valid_rows rows)))"
proof -
  have "map (trainer_name \<circ> (\<lambda>(idx, td). build_result c tc idx td)) (enumerate n xs) = map trainer xs"
    for c tc n xs
    by (induction xs arbitrary: n) simp_all
  then show ?thesis by (simp add: main_def Let_def)
qed

lemma round_half_even_bounds: "\<lfloor>x\<rfloor> \<le> round_half_even x \<and> round_half_even x \<le> \<lfloor>x\<rfloor> + 1"
  by (simp add: round_half_even_def Let_def)

lemma round_half_even_mono:
  assumes "x \<le> y"
  shows "round_half_even x \<le> round_half_even y"
proof (cases "\<lfloor>x\<rfloor> = \<lfloor>y\<rfloor>")
  case True
  with assms have "x - of_int \<lfloor>x\<rfloor> \<le> y - of_int \<lfloor>y\<rfloor>" by simp
  with True show ?thesis by (auto simp: round_half_even_def Let_def)
next
  case False
  with assms have "\<lfloor>x\<rfloor> < \<lfloor>y\<rfloor>" by (simp add: floor_mono order.not_eq_order_implies_strict)
  with round_half_even_bounds [of x] round_half_even_bounds [of y] show ?thesis by linarith
qed

lemma round_ndigits_mono: "x \<le> y \<Longrightarrow> round_ndigits x n \<le> round_ndigits y n"
proof -
  assume "x \<le> y"
  then have "x * 10 ^ n \<le> y * 10 ^ n" by simp
  then have "round_half_even (x * 10 ^ n) \<le> round_half_even (y * 10 ^ n)"
    by (rule round_half_even_mono)
  then show ?thesis by (simp add: round_ndigits_def divide_right_mono)
qed

lemma startswith_iff: "startswith s p \<longleftrightarrow> (\<exists>ys. s = p @ ys)"
  by (induction s p rule: startswith.induct) auto

lemma str_in_iff: "str_in p s \<longleftrightarrow> (\<exists>xs ys. s = xs @ p @ ys)"
proof (induction s)
  case Nil
  then show ?case by auto
next
  case (Cons c cs)
  show ?case
  proof
    assume "str_in p (c # cs)"
    then consider "startswith (c # cs) p" | "str_in p cs" by auto
    then show "\<exists>xs ys. c # cs = xs @ p @ ys"
    proof cases
      case 1
      then obtain ys where "c # cs = p @ ys" by (auto simp: startswith_iff)
      then have "c # cs = [] @ p @ ys" by simp
      then show ?thesis by blast
    next
      case 2
      with Cons obtain xs ys where "cs = xs @ p @ ys" by auto
      then have "c # cs = (c # xs) @ p @ ys" by simp
      then show ?thesis by blast
    qed
  next
    assume "\<exists>xs ys. c # cs = xs @ p @ ys"
    then obtain xs ys where e: "c # cs = xs @ p @ ys" by auto
    show "str_in p (c # cs)"
    proof (cases xs)
      case Nil
      with e have "startswith (c # cs) p" by (auto simp: startswith_iff)
      then show ?thesis by simp
    next
      case (Cons x xs')
      with e have "cs = xs' @ p @ ys" by simp
      with Cons.IH have "str_in p cs" by blast
      then show ?thesis by simp
    qed
  qed
qed

lemma has_positive_iff:
  "has_positive s \<longleftrightarrow> (\<exists>kw\<in>set positive_keywords. \<exists>xs ys. s = xs @ kw @ ys)"
  by (simp add: has_positive_def list_ex_iff str_in_iff)

lemma quote_text_Some_iff:
  "quote_text cell = Some q \<longleftrightarrow>
     (\<exists>t. cell = Some t \<and> t \<noteq> [] \<and> t \<noteq> ''nan'' \<and> t \<noteq> ''-'' \<and> 20 \<le> length (strip t)
          \<and> has_positive (lower (strip t))
          \<and> q = (if 200 < length (strip t) then take 200 (strip t) @ ''...'' else strip t))"
  by (cases cell) (auto simp: quote_text_def Let_def)

lemma main_sample: "main sort_values_stable sample_columns sample_rows = sample_results"
  by code_simp

lemma main_eq_map:
  "main srt columns rows =
     map (\<lambda>(idx, td). build_result columns
                (filter (\<lambda>col. str_in ''3.12'' col \<or> str_in ''3.13'' col) columns) idx td)
         (enumerate 1 (take 2 (sort_by_improvement (compute_trainer_stats srt (valid_rows rows)))))"
  by (simp add: main_def Let_def top_2_def)

lemma sorted_by_improvement:
  "sorted_wrt (\<lambda>a b. improvement b \<le> improvement a) (sort_by_improvement stats)"
proof -
  have "sorted (map (\<lambda>x. - improvement x) (sort_by_improvement stats))"
    by (simp add: sort_by_improvement_def)
  then show ?thesis by (simp add: sorted_map)
qed

lemma compute_trainer_stats_improvement:
  "s \<in> set (compute_trainer_stats srt df) \<Longrightarrow> improvement s = mean_late s - mean_early s"
  using compute_trainer_stats_elem group_stats_SomeD(8) by blast

lemma generate_email_ok:
  "generate_email now td = Inr e \<longleftrightarrow>
     (\<exists>q qs. quotes td = q # qs
        \<and> e = \<lparr> out_trainer_name = extract_first_name (trainer_name td),
                 trainer_email = trainer_name td,
                 email_subject = subject_line (extract_first_name (trainer_name td)),
                 email_body = body_text (extract_first_name (trainer_name td)) (rq_quote q),
                 evidence_quote = rq_quote q, evidence_row_id = rq_row_id q,
                 generated_at = now \<rparr>)"
  by (cases "quotes td") (auto simp: generate_email_def index0_def Let_def)

lemma generate_email_empty: "quotes td = [] \<Longrightarrow> generate_email now td = Inl IndexError"
  by (simp add: generate_email_def index0_def Let_def)

lemma extract_first_name_sample: "extract_first_name ''al.fa@x.org'' = ''Al''" by code_simp

lemma isspace_iff:
  "isspace c \<longleftrightarrow> (of_char c :: nat) \<in> {9, 10, 11, 12, 13, 28, 29, 30, 31, 32, 133, 160}"
proof -
  have "(9 \<le> n \<and> n \<le> 13) \<or> (28 \<le> n \<and> n \<le> 32) \<or> n = 133 \<or> n = 160
          \<longleftrightarrow> n \<in> {9, 10, 11, 12, 13, 28, 29, 30, 31, 32, 133, 160}" for n :: nat
    by (simp only: insert_iff empty_iff) presburger
  then show ?thesis by (simp only: isspace_def Let_def)
qed

lemma dropWhile_strip:
  "dropWhile isspace t = strip t @ rev (takeWhile isspace (rev (dropWhile isspace t)))"
proof -
  let ?d = "dropWhile isspace t"
  have "rev (takeWhile isspace (rev ?d) @ dropWhile isspace (rev ?d)) = rev (rev ?d)"
    by (simp only: takeWhile_dropWhile_id)
  then have "rev (dropWhile isspace (rev ?d)) @ rev (takeWhile isspace (rev ?d)) = ?d"
    by (simp only: rev_append rev_rev_ident)
  then show ?thesis by (simp only: strip_def)
qed

lemma strip_decomp:
  "\<exists>l r. t = l @ strip t @ r \<and> (\<forall>c\<in>set l. isspace c) \<and> (\<forall>c\<in>set r. isspace c)"
proof -
  let ?l = "takeWhile isspace t"
  let ?r = "rev (takeWhile isspace (rev (dropWhile isspace t)))"
  have "t = ?l @ dropWhile isspace t" by simp
  with dropWhile_strip [of t] have "t = ?l @ strip t @ ?r" by simp
  moreover have "\<forall>c\<in>set ?l. isspace c" by (auto dest: set_takeWhileD)
  moreover have "\<forall>c\<in>set ?r. isspace c" by (auto dest: set_takeWhileD)
  ultimately show ?thesis by blast
qed

lemma strip_unique:
  assumes "t = l @ m @ r" "\<forall>c\<in>set l. isspace c" "\<forall>c\<in>set r. isspace c"
    and "m \<noteq> []" "\<not> isspace (hd m)" "\<not> isspace (last m)"
  shows "strip t = m"
proof -
  from assms(4,5) have dm: "dropWhile isspace (m @ r) = m @ r"
    by (cases m) simp_all
  from assms(1,2) dm have d: "dropWhile isspace t = m @ r"
    by (simp add: dropWhile_append)
  from assms(4,6) have "dropWhile isspace (rev m) = rev m"
    by (cases "rev m") (auto simp: last_rev hd_rev)
  with assms(3) have "dropWhile isspace (rev r @ rev m) = rev m"
    by (simp add: dropWhile_append)
  with d show ?thesis by (simp add: strip_def)
qed

lemma strip_ends:
  assumes "strip t \<noteq> []"
  shows "\<not> isspace (hd (strip t)) \<and> \<not> isspace (last (strip t))"
proof -
  let ?d = "dropWhile isspace t"
  let ?e = "dropWhile isspace (rev ?d)"
  from assms have e: "?e \<noteq> []" by (simp add: strip_def)
  then have "\<not> isspace (hd ?e)" by (rule hd_dropWhile)
  with e have l: "\<not> isspace (last (strip t))" by (simp add: strip_def last_rev)
  from assms dropWhile_strip [of t] have "hd ?d = hd (strip t)"
    by (metis hd_append2)
  moreover from assms dropWhile_strip [of t] have "?d \<noteq> []"
    by (metis append_is_Nil_conv)
  then have "\<not> isspace (hd ?d)" by (rule hd_dropWhile)
  ultimately show ?thesis using l by simp
qed

lemma of_char_lower_char:
  "(of_char (lower_char c) :: nat) =
     (if (65 \<le> (of_char c :: nat) \<and> (of_char c :: nat) \<le> 90)
         \<or> (192 \<le> (of_char c :: nat) \<and> (of_char c :: nat) \<le> 222 \<and> (of_char c :: nat) \<noteq> 215)
      then of_char c + 32 else of_char c)"
  by (simp add: lower_char_def Let_def)

lemma lower_char_eq_letter:
  assumes "97 \<le> (of_char k :: nat)" "(of_char k :: nat) \<le> 122"
  shows "lower_char c = k \<longleftrightarrow> (c = k \<or> of_char c + 32 = (of_char k :: nat))"
proof -
  have "lower_char c = k \<longleftrightarrow> (of_char (lower_char c) :: nat) = of_char k"
    by (simp only: of_char_eq_iff)
  also have "\<dots> \<longleftrightarrow> ((of_char c :: nat) = of_char k \<or> of_char c + 32 = (of_char k :: nat))"
    using assms by (simp only: of_char_lower_char) (auto split: if_splits)
  finally show ?thesis by (simp only: of_char_eq_iff)
qed

lemma lower_eq_iff:
  assumes "\<forall>k\<in>set kw. 97 \<le> (of_char k :: nat) \<and> (of_char k :: nat) \<le> 122"
  shows "lower w = kw \<longleftrightarrow> list_all2 (\<lambda>a k. a = k \<or> of_char a + 32 = (of_char k :: nat)) w kw"
proof -
  have "lower w = kw \<longleftrightarrow> list_all2 (\<lambda>a k. lower_char a = k) w kw"
    by (simp add: lower_def list_all2_conv_all_nth list_eq_iff_nth_eq)
  also have "\<dots> \<longleftrightarrow> list_all2 (\<lambda>a k. a = k \<or> of_char a + 32 = (of_char k :: nat)) w kw"
    using assms by (auto simp: list_all2_conv_all_nth lower_char_eq_letter)
  finally show ?thesis .
qed

lemma lower_contains_iff:
  "(\<exists>xs ys. lower m = xs @ kw @ ys) \<longleftrightarrow> (\<exists>xs w ys. m = xs @ w @ ys \<and> lower w = kw)"
proof
  assume "\<exists>xs ys. lower m = xs @ kw @ ys"
  then obtain xs ys where "map lower_char m = xs @ (kw @ ys)" by (auto simp: lower_def)
  then have "\<exists>us vs. m = us @ vs \<and> xs = map lower_char us \<and> kw @ ys = map lower_char vs"
    by (simp only: map_eq_append_conv)
  then obtain us vs where m: "m = us @ vs" and v: "map lower_char vs = kw @ ys" by auto
  from v have "\<exists>w zs. vs = w @ zs \<and> kw = map lower_char w \<and> ys = map lower_char zs"
    by (simp only: map_eq_append_conv)
  then obtain w zs where "vs = w @ zs" "map lower_char w = kw" by auto
  with m have "m = us @ w @ zs \<and> lower w = kw" by (simp add: lower_def)
  then show "\<exists>xs w ys. m = xs @ w @ ys \<and> lower w = kw" by blast
next
  assume "\<exists>xs w ys. m = xs @ w @ ys \<and> lower w = kw"
  then obtain xs w ys where "m = xs @ w @ ys" "lower w = kw" by blast
  then have "lower m = lower xs @ kw @ lower ys" by (auto simp: lower_def)
  then show "\<exists>xs ys. lower m = xs @ kw @ ys" by blast
qed

lemma keywords_lowercase:
  "\<forall>kw\<in>set positive_keywords. \<forall>k\<in>set kw. 97 \<le> (of_char k :: nat) \<and> (of_char k :: nat) \<le> 122"
  by (simp add: positive_keywords_def)

lemma has_positive_lower_iff:
  "has_positive (lower m) \<longleftrightarrow>
     (\<exists>kw\<in>set positive_keywords. \<exists>xs w ys. m = xs @ w @ ys
         \<and> list_all2 (\<lambda>a k. a = k \<or> of_char a + 32 = (of_char k :: nat)) w kw)"
proof -
  have "has_positive (lower m) \<longleftrightarrow>
          (\<exists>kw\<in>set positive_keywords. \<exists>xs w ys. m = xs @ w @ ys \<and> lower w = kw)"
    by (simp only: has_positive_iff lower_contains_iff)
  also have "\<dots> \<longleftrightarrow> (\<exists>kw\<in>set positive_keywords. \<exists>xs w ys. m = xs @ w @ ys
         \<and> list_all2 (\<lambda>a k. a = k \<or> of_char a + 32 = (of_char k :: nat)) w kw)"
  proof (rule bex_cong [OF refl])
    fix kw assume "kw \<in> set positive_keywords"
    with keywords_lowercase
    have "\<forall>k\<in>set kw. 97 \<le> (of_char k :: nat) \<and> (of_char k :: nat) \<le> 122" by blast
    then have "lower w = kw \<longleftrightarrow> list_all2 (\<lambda>a k. a = k \<or> of_char a + 32 = (of_char k :: nat)) w kw"
      for w by (rule lower_eq_iff)
    then show "(\<exists>xs w ys. m = xs @ w @ ys \<and> lower w = kw) \<longleftrightarrow>
               (\<exists>xs w ys. m = xs @ w @ ys
                  \<and> list_all2 (\<lambda>a k. a = k \<or> of_char a + 32 = (of_char k :: nat)) w kw)"
      by simp
  qed
  finally show ?thesis .
qed

subsection \<open>Claims\<close>

text \<open>
  C3: the composite score of a row is the arithmetic mean of its present score
  values and is undefined exactly when every score value is absent. When a group yields
  an entry of \<^verbatim>\<open>trainer_stats\<close>, \<open>n_responses\<close> counts every row of the group, while
  each half mean is taken over the rows of that half with a defined composite score only.
\<close>

theorem composite_score_mean:
  "composite_score r =
     (if \<forall>v\<in>set (score_values r). v = None then None
      else Some (sum_list (dropna (score_values r)) / of_nat (length (dropna (score_values r)))))
   \<and> (group_stats srt t grp = Some s \<longrightarrow>
        n_responses s = length grp
        \<and> mean_early s = mean (map (\<lambda>r. the (composite_score r))
                               (filter (\<lambda>r. composite_score r \<noteq> None) (early_half (srt grp))))
        \<and> mean_late s = mean (map (\<lambda>r. the (composite_score r))
                               (filter (\<lambda>r. composite_score r \<noteq> None) (late_half (srt grp)))))"
proof -
  have a: "composite_score r =
     (if \<forall>v\<in>set (score_values r). v = None then None
      else Some (sum_list (dropna (score_values r)) / of_nat (length (dropna (score_values r)))))"
    by (simp only: composite_score_def nanmean_eq dropna_Nil_iff)
  show ?thesis
    using a group_stats_SomeD(5,6,7) [of srt t grp s]
    by (simp only: dropna_map_filter) blast
qed


theorem composite_score_mean_witness:
  "composite_score (sample_rows ! 2) = None \<and> composite_score (sample_rows ! 3) = Some 3
   \<and> composite_score (sample_rows ! 1) = Some 2
   \<and> (\<exists>s. group_stats sort_values_stable ''bea@x.org''
             (filter (\<lambda>r. Trainer r = Some ''bea@x.org'') (valid_rows sample_rows)) = Some s
          \<and> n_responses s = 3 \<and> mean_early s = 4 \<and> mean_late s = 3)"
proof -
  define grp where "grp = filter (\<lambda>r. Trainer r = Some ''bea@x.org'') (valid_rows sample_rows)"
  define s where "s = the (group_stats sort_values_stable ''bea@x.org'' grp)"
  have g: "group_stats sort_values_stable ''bea@x.org'' grp \<noteq> None"
    unfolding grp_def by code_simp
  then have gs: "group_stats sort_values_stable ''bea@x.org'' grp = Some s"
    by (simp add: s_def)
  have l: "length grp = 3" unfolding grp_def by code_simp
  have e: "mean (map (\<lambda>r. the (composite_score r))
              (filter (\<lambda>r. composite_score r \<noteq> None) (early_half (sort_values_stable grp)))) = 4"
    unfolding grp_def by code_simp
  have la: "mean (map (\<lambda>r. the (composite_score r))
              (filter (\<lambda>r. composite_score r \<noteq> None) (late_half (sort_values_stable grp)))) = 3"
    unfolding grp_def by code_simp
  have c: "composite_score (sample_rows ! 2) = None \<and> composite_score (sample_rows ! 3) = Some 3
   \<and> composite_score (sample_rows ! 1) = Some 2" by code_simp
  from composite_score_mean [of "sample_rows ! 2" sort_values_stable "''bea@x.org''" grp s] gs l e la c
  show ?thesis unfolding grp_def by auto
qed

text \<open>
  C4: the early half of a group of \<open>n\<close> rows holds the rows at the indices below
  \<open>n div 2\<close> and the late half the rows from \<open>n div 2\<close> on; for even \<open>n\<close> both halves
  have \<open>n div 2\<close> rows, for odd \<open>n\<close> the late half has one row more, and for \<open>n = 3\<close>
  the halves have 1 and 2 rows.
\<close>

theorem cohort_halves:
  "early_half grp = take (length grp div 2) grp \<and> late_half grp = drop (length grp div 2) grp
   \<and> early_half grp @ late_half grp = grp
   \<and> (\<forall>i. i < length grp div 2 \<longrightarrow> early_half grp ! i = grp ! i)
   \<and> (\<forall>i. length grp div 2 \<le> i \<and> i < length grp \<longrightarrow> late_half grp ! (i - length grp div 2) = grp ! i)
   \<and> length (early_half grp) = length grp div 2
   \<and> length (late_half grp) = length grp - length grp div 2
   \<and> (even (length grp) \<longrightarrow> length (early_half grp) = length grp div 2 \<and> length (late_half grp) = length grp div 2)
   \<and> (odd (length grp) \<longrightarrow> length (late_half grp) = length (early_half grp) + 1)
   \<and> (length grp = 3 \<longrightarrow> length (early_half grp) = 1 \<and> length (late_half grp) = 2)"
proof -
  have e: "early_half grp = take (length grp div 2) grp" by (simp add: early_half_def)
  have l: "late_half grp = drop (length grp div 2) grp" by (simp add: late_half_def)
  have ev: "even (length grp) \<longrightarrow> length grp - length grp div 2 = length grp div 2" by presburger
  have od: "odd (length grp) \<longrightarrow> length grp - length grp div 2 = length grp div 2 + 1" by presburger
  show ?thesis using ev od by (auto simp add: e l)
qed

theorem cohort_halves_witness:
  "early_half [10, 20, 30 :: nat] = [10] \<and> late_half [10, 20, 30 :: nat] = [20, 30]
   \<and> early_half [1, 2, 3, 4 :: nat] = [1, 2] \<and> late_half [1, 2, 3, 4 :: nat] = [3, 4]"
  using cohort_halves [of "[10, 20, 30 :: nat]"] cohort_halves [of "[1, 2, 3, 4 :: nat]"]
  by (simp add: early_half_def late_half_def)

text \<open>
  C5: a trainer with fewer than 3 valid rows, or whose early or late half has no row
  with a defined composite score, has no entry in \<^verbatim>\<open>trainer_stats\<close> and no record in the
  results. The model of \<^verbatim>\<open>main\<close> is a total function without an error value: neither
  condition raises.
\<close>

theorem excluded_trainers:
  assumes "length (filter (\<lambda>r. Trainer r = Some t) (valid_rows rows)) < 3
           \<or> dropna (map composite_score
                 (early_half (srt (filter (\<lambda>r. Trainer r = Some t) (valid_rows rows))))) = []
           \<or> dropna (map composite_score
                 (late_half (srt (filter (\<lambda>r. Trainer r = Some t) (valid_rows rows))))) = []"
  shows "t \<notin> trainer ` set (compute_trainer_stats srt (valid_rows rows))
         \<and> t \<notin> trainer_name ` set (main srt columns rows)"
proof -
  have a: "t \<notin> trainer ` set (compute_trainer_stats srt (valid_rows rows))"
  proof
    assume "t \<in> trainer ` set (compute_trainer_stats srt (valid_rows rows))"
    then obtain s where s: "s \<in> set (compute_trainer_stats srt (valid_rows rows))"
      and t: "trainer s = t" by auto
    from compute_trainer_stats_elem [OF s] t
    have g: "group_stats srt t (filter (\<lambda>r. Trainer r = Some t) (valid_rows rows)) = Some s"
      by simp
    from group_stats_SomeD(1,2,3) [OF g] assms show False by auto
  qed
  have "trainer_name ` set (main srt columns rows)
          = trainer ` set (top_2 (compute_trainer_stats srt (valid_rows rows)))"
    using map_trainer_name_main [of srt columns rows]
    by (metis list.set_map)
  with a set_top_2 [of "compute_trainer_stats srt (valid_rows rows)"] show ?thesis by blast
qed

theorem excluded_trainers_witness:
  "''cy@x.org'' \<notin> trainer_name ` set (main sort_values_stable sample_columns sample_rows)
   \<and> ''dee@x.org'' \<notin> trainer_name ` set (main sort_values_stable sample_columns sample_rows)
   \<and> length (filter (\<lambda>r. Trainer r = Some ''cy@x.org'') (valid_rows sample_rows)) = 2
   \<and> length (filter (\<lambda>r. Trainer r = Some ''dee@x.org'') (valid_rows sample_rows)) = 3"
proof -
  have a: "length (filter (\<lambda>r. Trainer r = Some ''cy@x.org'') (valid_rows sample_rows)) = 2"
    by code_simp
  have b: "length (filter (\<lambda>r. Trainer r = Some ''dee@x.org'') (valid_rows sample_rows)) = 3"
    by code_simp
  have c: "dropna (map composite_score (early_half (sort_values_stable
             (filter (\<lambda>r. Trainer r = Some ''dee@x.org'') (valid_rows sample_rows))))) = []"
    by code_simp
  from a have a': "length (filter (\<lambda>r. Trainer r = Some ''cy@x.org'') (valid_rows sample_rows)) < 3"
    by simp
  show ?thesis
    using excluded_trainers [of "''cy@x.org''" sample_rows sort_values_stable sample_columns]
          excluded_trainers [of "''dee@x.org''" sample_rows sort_values_stable sample_columns] a a' b c
    by blast
qed

text \<open>
  C8: the text of a quote is the trimmed text when that has at most 200 characters,
  and its first 200 characters followed by \<^verbatim>\<open>...\<close> when it has more. The trimmed text
  is the cell without the whitespace before its first and after its last character that
  is not whitespace.
\<close>

theorem quote_truncation:
  "quote_text (Some t) = Some q \<Longrightarrow>
     (200 < length (strip t) \<longrightarrow> q = take 200 (strip t) @ ''...'' \<and> length q = 203)
     \<and> (length (strip t) \<le> 200 \<longrightarrow> q = strip t)
     \<and> (\<exists>l r. t = l @ strip t @ r
           \<and> (\<forall>c\<in>set (l @ r). (of_char c :: nat) \<in> {9, 10, 11, 12, 13, 28, 29, 30, 31, 32, 133, 160})
           \<and> (of_char (hd (strip t)) :: nat) \<notin> {9, 10, 11, 12, 13, 28, 29, 30, 31, 32, 133, 160}
           \<and> (of_char (last (strip t)) :: nat) \<notin> {9, 10, 11, 12, 13, 28, 29, 30, 31, 32, 133, 160})"
proof -
  assume q: "quote_text (Some t) = Some q"
  then have len: "20 \<le> length (strip t)" by (auto simp: quote_text_Some_iff)
  then have ne: "strip t \<noteq> []" by auto
  obtain l r where d: "t = l @ strip t @ r" "\<forall>c\<in>set l. isspace c" "\<forall>c\<in>set r. isspace c"
    using strip_decomp by blast
  from d(2,3) have "\<forall>c\<in>set (l @ r). (of_char c :: nat) \<in> {9, 10, 11, 12, 13, 28, 29, 30, 31, 32, 133, 160}"
    by (auto simp: isspace_iff)
  moreover from strip_ends [OF ne]
  have "(of_char (hd (strip t)) :: nat) \<notin> {9, 10, 11, 12, 13, 28, 29, 30, 31, 32, 133, 160}"
       "(of_char (last (strip t)) :: nat) \<notin> {9, 10, 11, 12, 13, 28, 29, 30, 31, 32, 133, 160}"
    by (simp_all only: isspace_iff not_False_eq_True)
  ultimately have e: "\<exists>l r. t = l @ strip t @ r
           \<and> (\<forall>c\<in>set (l @ r). (of_char c :: nat) \<in> {9, 10, 11, 12, 13, 28, 29, 30, 31, 32, 133, 160})
           \<and> (of_char (hd (strip t)) :: nat) \<notin> {9, 10, 11, 12, 13, 28, 29, 30, 31, 32, 133, 160}
           \<and> (of_char (last (strip t)) :: nat) \<notin> {9, 10, 11, 12, 13, 28, 29, 30, 31, 32, 133, 160}"
    using d(1) by blast
  from q have "(200 < length (strip t) \<longrightarrow> q = take 200 (strip t) @ ''...'' \<and> length q = 203)
     \<and> (length (strip t) \<le> 200 \<longrightarrow> q = strip t)"
    by (auto simp: quote_text_Some_iff)
  with e show ?thesis by blast
qed

theorem quote_truncation_witness:
  "quote_text (Some text_201) = Some (take 200 text_201 @ ''...'')
   \<and> length (strip text_201) = 201
   \<and> quote_text (Some text_200) = Some text_200
   \<and> length (strip text_200) = 200
   \<and> quote_text (Some (''  '' @ text_201 @ '' '')) = Some (take 200 text_201 @ ''...'')
   \<and> strip (''  '' @ text_201 @ '' '') = text_201
   \<and> quote_text (Some ('' '' @ text_200 @ ''  '')) = Some text_200
   \<and> strip ('' '' @ text_200 @ ''  '') = text_200"
proof -
  have a: "quote_text (Some text_201) = Some (take 200 text_201 @ ''...'')" by code_simp
  have b: "quote_text (Some text_200) = Some text_200" by code_simp
  have c: "strip text_201 = text_201" by code_simp
  have d: "strip text_200 = text_200" by code_simp
  have e: "length text_201 = 201" "length text_200 = 200" by (simp_all add: text_201_def text_200_def)
  have f: "quote_text (Some (''  '' @ text_201 @ '' '')) = Some (take 200 text_201 @ ''...'')"
    by code_simp
  have g: "quote_text (Some ('' '' @ text_200 @ ''  '')) = Some text_200" by code_simp
  have h: "strip (''  '' @ text_201 @ '' '') = text_201" by code_simp
  have i: "strip ('' '' @ text_200 @ ''  '') = text_200" by code_simp
  show ?thesis
    using quote_truncation [OF a, THEN conjunct1] quote_truncation [OF b, THEN conjunct2, THEN conjunct1]
      a b c d e f g h i
    by simp
qed

text \<open>
  C9: a cell yields a quote if and only if it is present, is not empty, is not
  \<^verbatim>\<open>nan\<close> and not \<^verbatim>\<open>-\<close>, its text between the surrounding whitespace has at least
  20 characters, and that text contains, as a contiguous substring, one of the 18
  keywords with each letter in either case.
\<close>

theorem quote_criteria:
  "((\<exists>q. quote_text cell = Some q) \<longleftrightarrow>
      (\<exists>t l m r. cell = Some t \<and> t \<noteq> [] \<and> t \<noteq> ''nan'' \<and> t \<noteq> ''-''
         \<and> t = l @ m @ r
         \<and> (\<forall>c\<in>set (l @ r). (of_char c :: nat) \<in> {9, 10, 11, 12, 13, 28, 29, 30, 31, 32, 133, 160})
         \<and> (of_char (hd m) :: nat) \<notin> {9, 10, 11, 12, 13, 28, 29, 30, 31, 32, 133, 160}
         \<and> (of_char (last m) :: nat) \<notin> {9, 10, 11, 12, 13, 28, 29, 30, 31, 32, 133, 160}
         \<and> 20 \<le> length m
         \<and> (\<exists>kw\<in>set [''excellent'', ''great'', ''love'', ''helpful'', ''enjoyed'',
                       ''beneficial'', ''best'', ''appreciated'', ''wonderful'',
                       ''positive'', ''fun'', ''engaging'', ''motivated'', ''patient'',
                       ''clear'', ''friendly'', ''approachable'', ''flexible''].
              \<exists>xs w ys. m = xs @ w @ ys
                \<and> list_all2 (\<lambda>a k. a = k \<or> of_char a + 32 = (of_char k :: nat)) w kw)))
   \<and> length positive_keywords = 18 \<and> distinct positive_keywords"
proof -
  let ?M = "\<lambda>m. \<exists>kw\<in>set [''excellent'', ''great'', ''love'', ''helpful'', ''enjoyed'',
                       ''beneficial'', ''best'', ''appreciated'', ''wonderful'',
                       ''positive'', ''fun'', ''engaging'', ''motivated'', ''patient'',
                       ''clear'', ''friendly'', ''approachable'', ''flexible''].
              \<exists>xs w ys. m = xs @ w @ ys
                \<and> list_all2 (\<lambda>a k. a = k \<or> of_char a + 32 = (of_char k :: nat)) w kw"
  let ?W = "\<lambda>c. (of_char c :: nat) \<in> {9, 10, 11, 12, 13, 28, 29, 30, 31, 32, 133, 160}"
  have hp: "has_positive (lower m) \<longleftrightarrow> ?M m" for m
    by (rule has_positive_lower_iff [unfolded positive_keywords_def])
  have ws: "isspace c \<longleftrightarrow> ?W c" for c by (rule isspace_iff)
  have kw: "length positive_keywords = 18 \<and> distinct positive_keywords"
    by (simp add: positive_keywords_def)
  have "(\<exists>q. quote_text cell = Some q) \<longleftrightarrow>
      (\<exists>t l m r. cell = Some t \<and> t \<noteq> [] \<and> t \<noteq> ''nan'' \<and> t \<noteq> ''-''
         \<and> t = l @ m @ r \<and> (\<forall>c\<in>set (l @ r). ?W c) \<and> \<not> ?W (hd m) \<and> \<not> ?W (last m)
         \<and> 20 \<le> length m \<and> ?M m)"
  proof
    assume "\<exists>q. quote_text cell = Some q"
    then obtain t where t: "cell = Some t" "t \<noteq> []" "t \<noteq> ''nan''" "t \<noteq> ''-''"
      and len: "20 \<le> length (strip t)" and pos: "has_positive (lower (strip t))"
      by (auto simp: quote_text_Some_iff)
    from len have ne: "strip t \<noteq> []" by auto
    obtain l r where d: "t = l @ strip t @ r" "\<forall>c\<in>set l. isspace c" "\<forall>c\<in>set r. isspace c"
      using strip_decomp by blast
    from d(2,3) have "\<forall>c\<in>set (l @ r). ?W c" by (auto simp: ws)
    moreover from strip_ends [OF ne] have "\<not> ?W (hd (strip t))" "\<not> ?W (last (strip t))"
      by (simp_all only: ws not_False_eq_True)
    moreover from pos have "?M (strip t)" by (simp only: hp)
    ultimately show "\<exists>t l m r. cell = Some t \<and> t \<noteq> [] \<and> t \<noteq> ''nan'' \<and> t \<noteq> ''-''
         \<and> t = l @ m @ r \<and> (\<forall>c\<in>set (l @ r). ?W c) \<and> \<not> ?W (hd m) \<and> \<not> ?W (last m)
         \<and> 20 \<le> length m \<and> ?M m"
      using t d(1) len by blast
  next
    assume "\<exists>t l m r. cell = Some t \<and> t \<noteq> [] \<and> t \<noteq> ''nan'' \<and> t \<noteq> ''-''
         \<and> t = l @ m @ r \<and> (\<forall>c\<in>set (l @ r). ?W c) \<and> \<not> ?W (hd m) \<and> \<not> ?W (last m)
         \<and> 20 \<le> length m \<and> ?M m"
    then obtain t l m r where t: "cell = Some t" "t \<noteq> []" "t \<noteq> ''nan''" "t \<noteq> ''-''"
      and d: "t = l @ m @ r" and w: "\<forall>c\<in>set (l @ r). ?W c"
      and e: "\<not> ?W (hd m)" "\<not> ?W (last m)" and len: "20 \<le> length m" and pos: "?M m"
      by blast
    from len have ne: "m \<noteq> []" by auto
    from w have wl: "\<forall>c\<in>set l. isspace c" and wr: "\<forall>c\<in>set r. isspace c"
      by (auto simp: ws)
    from e have "\<not> isspace (hd m)" "\<not> isspace (last m)" by (simp_all only: ws not_False_eq_True)
    with d wl wr ne have s: "strip t = m" by (rule strip_unique)
    from pos have "has_positive (lower m)" by (simp only: hp)
    with t s len show "\<exists>q. quote_text cell = Some q" by (simp add: quote_text_Some_iff)
  qed
  from this kw show ?thesis by (rule conjI)
qed

theorem quote_criteria_witness:
  "quote_text (Some padded_upper_text) = Some ''The trainer was EXCELLENT today''
   \<and> (\<exists>l m r. padded_upper_text = l @ m @ r
         \<and> (\<forall>c\<in>set (l @ r). (of_char c :: nat) \<in> {9, 10, 11, 12, 13, 28, 29, 30, 31, 32, 133, 160})
         \<and> (of_char (hd m) :: nat) \<notin> {9, 10, 11, 12, 13, 28, 29, 30, 31, 32, 133, 160}
         \<and> (of_char (last m) :: nat) \<notin> {9, 10, 11, 12, 13, 28, 29, 30, 31, 32, 133, 160}
         \<and> 20 \<le> length m
         \<and> (\<exists>kw\<in>set [''excellent'', ''great'', ''love'', ''helpful'', ''enjoyed'',
                       ''beneficial'', ''best'', ''appreciated'', ''wonderful'',
                       ''positive'', ''fun'', ''engaging'', ''motivated'', ''patient'',
                       ''clear'', ''friendly'', ''approachable'', ''flexible''].
              \<exists>xs w ys. m = xs @ w @ ys
                \<and> list_all2 (\<lambda>a k. a = k \<or> of_char a + 32 = (of_char k :: nat)) w kw))
   \<and> quote_text (Some ''We appreciatedly took part'') = Some ''We appreciatedly took part''
   \<and> quote_text (Some ''GrEaT course, thanks a lot'') = Some ''GrEaT course, thanks a lot''
   \<and> quote_text (Some ''Great fun but short '') = None
   \<and> quote_text (Some ''nan'') = None \<and> quote_text (Some ''-'') = None
   \<and> quote_text (Some []) = None \<and> quote_text None = None
   \<and> quote_text (Some ''so great'') = None
   \<and> quote_text (Some ''The room was rather cold'') = None"
proof -
  have a: "quote_text (Some padded_upper_text) = Some ''The trainer was EXCELLENT today''"
    by code_simp
  have b: "quote_text (Some ''We appreciatedly took part'') = Some ''We appreciatedly took part''
   \<and> quote_text (Some ''GrEaT course, thanks a lot'') = Some ''GrEaT course, thanks a lot''
   \<and> quote_text (Some ''Great fun but short '') = None
   \<and> quote_text (Some ''nan'') = None \<and> quote_text (Some ''-'') = None
   \<and> quote_text (Some []) = None \<and> quote_text None = None
   \<and> quote_text (Some ''so great'') = None
   \<and> quote_text (Some ''The room was rather cold'') = None"
    by code_simp
  from a have ex: "\<exists>q. quote_text (Some padded_upper_text) = Some q" by blast
  have "\<exists>t l m r. Some padded_upper_text = Some t \<and> t \<noteq> [] \<and> t \<noteq> ''nan'' \<and> t \<noteq> ''-''
         \<and> t = l @ m @ r
         \<and> (\<forall>c\<in>set (l @ r). (of_char c :: nat) \<in> {9, 10, 11, 12, 13, 28, 29, 30, 31, 32, 133, 160})
         \<and> (of_char (hd m) :: nat) \<notin> {9, 10, 11, 12, 13, 28, 29, 30, 31, 32, 133, 160}
         \<and> (of_char (last m) :: nat) \<notin> {9, 10, 11, 12, 13, 28, 29, 30, 31, 32, 133, 160}
         \<and> 20 \<le> length m
         \<and> (\<exists>kw\<in>set [''excellent'', ''great'', ''love'', ''helpful'', ''enjoyed'',
                       ''beneficial'', ''best'', ''appreciated'', ''wonderful'',
                       ''positive'', ''fun'', ''engaging'', ''motivated'', ''patient'',
                       ''clear'', ''friendly'', ''approachable'', ''flexible''].
              \<exists>xs w ys. m = xs @ w @ ys
                \<and> list_all2 (\<lambda>a k. a = k \<or> of_char a + 32 = (of_char k :: nat)) w kw)"
    using quote_criteria [of "Some padded_upper_text", THEN conjunct1, THEN iffD1, OF ex] .
  then have "\<exists>l m r. padded_upper_text = l @ m @ r
         \<and> (\<forall>c\<in>set (l @ r). (of_char c :: nat) \<in> {9, 10, 11, 12, 13, 28, 29, 30, 31, 32, 133, 160})
         \<and> (of_char (hd m) :: nat) \<notin> {9, 10, 11, 12, 13, 28, 29, 30, 31, 32, 133, 160}
         \<and> (of_char (last m) :: nat) \<notin> {9, 10, 11, 12, 13, 28, 29, 30, 31, 32, 133, 160}
         \<and> 20 \<le> length m
         \<and> (\<exists>kw\<in>set [''excellent'', ''great'', ''love'', ''helpful'', ''enjoyed'',
                       ''beneficial'', ''best'', ''appreciated'', ''wonderful'',
                       ''positive'', ''fun'', ''engaging'', ''motivated'', ''patient'',
                       ''clear'', ''friendly'', ''approachable'', ''flexible''].
              \<exists>xs w ys. m = xs @ w @ ys
                \<and> list_all2 (\<lambda>a k. a = k \<or> of_char a + 32 = (of_char k :: nat)) w kw)"
    by (simp only: option.inject) blast
  with a b show ?thesis by (intro conjI) simp_all
qed

text \<open>
  C6: the results follow the entries of \<^verbatim>\<open>trainer_stats\<close> sorted by improvement
  (late mean minus early mean) in descending order, cut to the first 2; the rank of the
  record at position \<open>i\<close> (from 0) is \<open>i + 1\<close>, so every rank is at least 1, and the
  improvement scores do not increase along the results.
\<close>

theorem ranking_output:
  "let stats = compute_trainer_stats srt (valid_rows rows);
       ranked = sort_by_improvement stats;
       out = main srt columns rows
   in mset ranked = mset stats
      \<and> (\<forall>s\<in>set ranked. improvement s = mean_late s - mean_early s)
      \<and> sorted_wrt (\<lambda>a b. improvement b \<le> improvement a) ranked
      \<and> length out = min 2 (length ranked)
      \<and> (\<forall>i<length out. rank (out ! i) = i + 1
             \<and> trainer_name (out ! i) = trainer (ranked ! i)
             \<and> improvement_score (out ! i) = round_ndigits (improvement (ranked ! i)) 3)
      \<and> (\<forall>r\<in>set out. 1 \<le> rank r)
      \<and> sorted_wrt (\<lambda>a b. improvement_score b \<le> improvement_score a) out"
proof -
  let ?stats = "compute_trainer_stats srt (valid_rows rows)"
  let ?ranked = "sort_by_improvement ?stats"
  let ?out = "main srt columns rows"
  let ?tc = "filter (\<lambda>col. str_in ''3.12'' col \<or> str_in ''3.13'' col) columns"
  have out: "?out = map (\<lambda>(idx, td). build_result columns ?tc idx td) (enumerate 1 (take 2 ?ranked))"
    by (rule main_eq_map)
  have m: "mset ?ranked = mset ?stats"
    by (simp add: sort_by_improvement_def)
  have st: "set ?ranked = set ?stats"
    by (simp add: sort_by_improvement_def)
  have imp: "\<forall>s\<in>set ?ranked. improvement s = mean_late s - mean_early s"
    unfolding st using compute_trainer_stats_improvement by blast
  have srt: "sorted_wrt (\<lambda>a b. improvement b \<le> improvement a) ?ranked"
    by (rule sorted_by_improvement)
  have len: "length ?out = min 2 (length ?ranked)"
    unfolding out by (simp add: min.commute)
  have nth: "\<forall>i<length ?out. rank (?out ! i) = i + 1
             \<and> trainer_name (?out ! i) = trainer (?ranked ! i)
             \<and> improvement_score (?out ! i) = round_ndigits (improvement (?ranked ! i)) 3"
  proof (intro allI impI)
    fix i assume "i < length ?out"
    with len have i: "i < length (take 2 ?ranked)" by simp
    then have "?out ! i = build_result columns ?tc (1 + i) (take 2 ?ranked ! i)"
      unfolding out by (simp add: nth_enumerate_eq)
    moreover from i have "take 2 ?ranked ! i = ?ranked ! i" by simp
    ultimately show "rank (?out ! i) = i + 1
             \<and> trainer_name (?out ! i) = trainer (?ranked ! i)
             \<and> improvement_score (?out ! i) = round_ndigits (improvement (?ranked ! i)) 3"
      by simp
  qed
  have rk: "\<forall>r\<in>set ?out. 1 \<le> rank r"
  proof
    fix r assume "r \<in> set ?out"
    then obtain i where "i < length ?out" "?out ! i = r" by (auto simp: in_set_conv_nth)
    with nth show "1 \<le> rank r" by auto
  qed
  have so: "sorted_wrt (\<lambda>a b. improvement_score b \<le> improvement_score a) ?out"
    unfolding sorted_wrt_iff_nth_less
  proof (intro allI impI)
    fix i j assume ij: "i < j" and j: "j < length ?out"
    from j len have jr: "j < length ?ranked" by simp
    from srt ij jr have "improvement (?ranked ! j) \<le> improvement (?ranked ! i)"
      by (simp add: sorted_wrt_iff_nth_less)
    then have "round_ndigits (improvement (?ranked ! j)) 3 \<le> round_ndigits (improvement (?ranked ! i)) 3"
      by (rule round_ndigits_mono)
    moreover from ij j have "i < length ?out" by simp
    ultimately show "improvement_score (?out ! j) \<le> improvement_score (?out ! i)"
      using nth j by simp
  qed
  from m imp srt len nth rk so show ?thesis unfolding Let_def by (intro conjI)
qed


theorem ranking_output_witness:
  "map rank (main sort_values_stable sample_columns sample_rows) = [1, 2]
   \<and> map improvement_score (main sort_values_stable sample_columns sample_rows) = [2, - 1]
   \<and> map trainer_name (main sort_values_stable sample_columns sample_rows)
       = [''al.fa@x.org'', ''bea@x.org'']
   \<and> length (main sort_values_stable sample_columns sample_rows) = 2
   \<and> sorted_wrt (\<lambda>a b. improvement_score b \<le> improvement_score a)
        (main sort_values_stable sample_columns sample_rows)"
proof -
  have a: "map rank (main sort_values_stable sample_columns sample_rows) = [1, 2]
   \<and> map improvement_score (main sort_values_stable sample_columns sample_rows) = [2, - 1]
   \<and> map trainer_name (main sort_values_stable sample_columns sample_rows)
       = [''al.fa@x.org'', ''bea@x.org'']
   \<and> length (main sort_values_stable sample_columns sample_rows) = 2"
    by (simp add: main_sample sample_results_def)
  from ranking_output [of sort_values_stable sample_rows sample_columns]
  have "sorted_wrt (\<lambda>a b. improvement_score b \<le> improvement_score a)
        (main sort_values_stable sample_columns sample_rows)"
    unfolding Let_def by blast
  with a show ?thesis by blast
qed

text \<open>
  C7: the case study angle of a result is chosen from the improvement before rounding,
  by the strict thresholds 1, 1/2 and 0; an improvement of exactly 1, 1/2 or 0 gets the
  next lower template.
\<close>

theorem case_study_buckets:
  "case_study_angle (build_result columns text_cols idx td) = case_study (improvement td)
   \<and> (1 < imp \<longrightarrow>
        case_study imp = ''Demonstrated exceptional growth in participant satisfaction scores'')
   \<and> (1 / 2 < imp \<and> imp \<le> 1 \<longrightarrow>
        case_study imp = ''Showed strong improvement in training effectiveness and learner engagement'')
   \<and> (0 < imp \<and> imp \<le> 1 / 2 \<longrightarrow>
        case_study imp = ''Steady upward trajectory in teaching quality and participant feedback'')
   \<and> (imp \<le> 0 \<longrightarrow>
        case_study imp = ''Maintained consistently high training standards with positive learner outcomes'')"
  by (simp add: case_study_def)

theorem case_study_buckets_witness:
  "case_study 2 = ''Demonstrated exceptional growth in participant satisfaction scores''
   \<and> case_study 1 = ''Showed strong improvement in training effectiveness and learner engagement''
   \<and> case_study (1 / 2) = ''Steady upward trajectory in teaching quality and participant feedback''
   \<and> case_study 0 = ''Maintained consistently high training standards with positive learner outcomes''
   \<and> improvement_score (build_result [] [] 1 near_one) = 1
   \<and> case_study_angle (build_result [] [] 1 near_one)
       = ''Demonstrated exceptional growth in participant satisfaction scores''"
proof -
  have r: "improvement_score (build_result [] [] 1 near_one) = 1" by code_simp
  have i: "improvement near_one = 2501 / 2500" by (simp add: near_one_def)
  have c: "case_study_angle (build_result [] [] 1 near_one)
             = ''Demonstrated exceptional growth in participant satisfaction scores''"
    using case_study_buckets [of "[]" "[]" 1 near_one "2501 / 2500"] by (simp add: i)
  from case_study_buckets [of "[]" "[]" 1 near_one 2] case_study_buckets [of "[]" "[]" 1 near_one 1]
    case_study_buckets [of "[]" "[]" 1 near_one "1 / 2"] case_study_buckets [of "[]" "[]" 1 near_one 0]
    r c
  show ?thesis by simp
qed

text \<open>
  C10: quote selection does not deduplicate by row. In the sample frame, whose rows are
  numbered 1 to 13 in row order, both quotes kept for the first ranked trainer come from
  row 2, one through each of the two text columns.
\<close>

theorem same_row_two_quotes:
  "map row_id sample_rows = [1..<14]
   \<and> map (\<lambda>r. map (\<lambda>q. (rq_row_id q, source q)) (quotes r))
         (main sort_values_stable sample_columns sample_rows)
       = [[(2, ''3.12 Liked''), (2, ''3.13 Other'')], []]
   \<and> (\<exists>r q1 q2. r \<in> set (main sort_values_stable sample_columns sample_rows)
          \<and> quotes r = [q1, q2] \<and> rq_row_id q1 = rq_row_id q2 \<and> source q1 \<noteq> source q2)"
proof -
  let ?q1 = "\<lparr> rq_row_id = 2, rq_quote = ''The sessions were great and well paced'',
                source = ''3.12 Liked'' \<rparr>"
  let ?q2 = "\<lparr> rq_row_id = 2, rq_quote = ''Very helpful trainer, thank you'',
                source = ''3.13 Other'' \<rparr>"
  let ?r = "hd sample_results"
  have ids: "map row_id sample_rows = [1..<14]" by code_simp
  have qs: "map (\<lambda>r. map (\<lambda>q. (rq_row_id q, source q)) (quotes r))
              (main sort_values_stable sample_columns sample_rows)
            = [[(2, ''3.12 Liked''), (2, ''3.13 Other'')], []]"
    by (simp add: main_sample sample_results_def)
  have "?r \<in> set (main sort_values_stable sample_columns sample_rows)"
    by (simp add: main_sample sample_results_def)
  moreover have "quotes ?r = [?q1, ?q2]" by (simp add: sample_results_def)
  moreover have "rq_row_id ?q1 = rq_row_id ?q2 \<and> source ?q1 \<noteq> source ?q2" by simp
  ultimately have "\<exists>r q1 q2. r \<in> set (main sort_values_stable sample_columns sample_rows)
          \<and> quotes r = [q1, q2] \<and> rq_row_id q1 = rq_row_id q2 \<and> source q1 \<noteq> source q2"
    by blast
  with ids qs show ?thesis by blast
qed

text \<open>
  C1: the outreach generator on a result without quotes. For the sample frame the
  second result has no quote; \<^verbatim>\<open>generate_email\<close> raises \<^verbatim>\<open>IndexError\<close> on it, and so
  does the run over the whole list of results.
\<close>

theorem outreach_empty_quotes_raises:
  "quotes (main sort_values_stable sample_columns sample_rows ! 1) = []
   \<and> generate_email ''2026-01-30T16:00:00'' (main sort_values_stable sample_columns sample_rows ! 1)
       = Inl IndexError
   \<and> generate_all ''2026-01-30T16:00:00'' (main sort_values_stable sample_columns sample_rows)
       = Inl IndexError"
  unfolding main_sample by code_simp

end
